theory Spec2Isabelle
  imports Main "HOL-Library.AList"
begin

section \<open>Errors\<close>

text \<open>
  Every exception the module raises, or lets through from a collaborator, is a value.
  The two \<open>ValueError\<close>s of \<open>find_files\<close> carry what their message is formatted from:
  the candidate path, and the comma-joined searched paths.
\<close>

datatype error =
    ValueError_file_does_not_exists string
  | ValueError_no_config_file_found string
  | ValueError_not_available string
  | SyntaxError nat nat
  | SyntaxError_in_config_file string nat nat
  | SyntaxError_no_config_parser string
  | NotImplementedError
  | NameError string
  | MissingKeyError string
  | OtherException string
  | SystemExit
  | KeyboardInterrupt

text \<open>
  The classes under \<open>Exception\<close>, the ones an \<open>except Exception:\<close> clause catches.
  \<open>SystemExit\<close> and \<open>KeyboardInterrupt\<close> derive from \<open>BaseException\<close> only and pass
  through such a clause.
\<close>

fun is_Exception :: "error \<Rightarrow> bool" where
  "is_Exception SystemExit = False"
| "is_Exception KeyboardInterrupt = False"
| "is_Exception e = True"

section \<open>File discovery: \<open>find_files\<close> and \<open>find_file\<close>\<close>

text \<open>
  A research structure is a list of 3-tuples
  \<open>(enforce_file_existence, cascaded, fun)\<close>. The callable \<open>fun\<close> takes no argument
  and returns a path or \<open>None\<close>; like any Python callable it may also raise.
  \<open>os.path.exists\<close> is a parameter of the model.
\<close>

type_synonym get_filename = "unit \<Rightarrow> error + string option"

type_synonym research_rule = "bool \<times> bool \<times> get_filename"

text \<open>\<open>', '.join(paths)\<close>, for any separator.\<close>

fun join :: "string \<Rightarrow> string list \<Rightarrow> string" where
  "join sep [] = []"
| "join sep [x] = x"
| "join sep (x # y # ys) = x @ sep @ join sep (y # ys)"

text \<open>
  The \<open>for\<close> loop of \<open>find_files\<close>, with its two accumulators. The result is the pair
  \<open>(filenames, paths_searched)\<close> at loop exit (by exhaustion or by \<open>break\<close>), or the
  exception that left the loop. \<open>if candidate:\<close> is false for \<open>None\<close> and for the empty
  string.
\<close>

fun find_files_loop ::
  "(string \<Rightarrow> bool) \<Rightarrow> research_rule list \<Rightarrow> string list \<Rightarrow> string list
    \<Rightarrow> error + (string list \<times> string list)" where
  "find_files_loop path_exists [] filenames paths_searched = Inr (filenames, paths_searched)"
| "find_files_loop path_exists ((enforce_file_existence, cascaded, fn) # rest)
      filenames paths_searched =
     (case fn () of
        Inl e \<Rightarrow> Inl e
      | Inr None \<Rightarrow> find_files_loop path_exists rest filenames paths_searched
      | Inr (Some candidate) \<Rightarrow>
          if candidate \<noteq> [] then
            if \<not> path_exists candidate then
              if enforce_file_existence then Inl (ValueError_file_does_not_exists candidate)
              else find_files_loop path_exists rest filenames (paths_searched @ [candidate])
            else
              if \<not> cascaded then Inr (filenames @ [candidate], paths_searched)
              else find_files_loop path_exists rest (filenames @ [candidate]) paths_searched
          else find_files_loop path_exists rest filenames paths_searched)"

definition find_files ::
  "(string \<Rightarrow> bool) \<Rightarrow> research_rule list \<Rightarrow> bool \<Rightarrow> error + string list" where
  "find_files path_exists research_structure raise_on_all_missing =
     (case find_files_loop path_exists research_structure [] [] of
        Inl e \<Rightarrow> Inl e
      | Inr (filenames, paths_searched) \<Rightarrow>
          if filenames = [] \<and> raise_on_all_missing
          then Inl (ValueError_no_config_file_found (join '', '' paths_searched))
          else Inr filenames)"

text \<open>
  \<open>find_file\<close> takes 2-tuples \<open>(enforce_file_existence, fun)\<close>, rebuilds each as a
  3-tuple with \<open>False\<close> in the middle, and returns \<open>None\<close> or \<open>filenames[0]\<close>.
\<close>

definition find_file ::
  "(string \<Rightarrow> bool) \<Rightarrow> (bool \<times> get_filename) list \<Rightarrow> bool \<Rightarrow> error + string option" where
  "find_file path_exists research_structure raise_on_all_missing =
     (case find_files path_exists
             (map (\<lambda>(enforce_file_existence, fn). (enforce_file_existence, False, fn))
                  research_structure)
             raise_on_all_missing of
        Inl e \<Rightarrow> Inl e
      | Inr filenames \<Rightarrow>
          (case filenames of [] \<Rightarrow> Inr None | f # _ \<Rightarrow> Inr (Some f)))"

subsection \<open>Vocabulary for the discovery properties\<close>

text \<open>The path a rule produces: the supplier's value when it is a non-empty string.\<close>

definition produced :: "research_rule \<Rightarrow> string option" where
  "produced r =
     (case r of (enforce_file_existence, cascaded, fn) \<Rightarrow>
        (case fn () of
           Inl e \<Rightarrow> None
         | Inr None \<Rightarrow> None
         | Inr (Some candidate) \<Rightarrow> if candidate \<noteq> [] then Some candidate else None))"

text \<open>A rule whose produced filename exists on disk.\<close>

definition produces_existing :: "(string \<Rightarrow> bool) \<Rightarrow> research_rule \<Rightarrow> bool" where
  "produces_existing path_exists r =
     (case produced r of None \<Rightarrow> False | Some p \<Rightarrow> path_exists p)"

text \<open>
  A rule the loop passes over to reach the next one: its supplier returns, and either
  gives no candidate, or a missing path that is not enforced, or an existing path with
  cascading on.
\<close>

definition passes_on :: "(string \<Rightarrow> bool) \<Rightarrow> research_rule \<Rightarrow> bool" where
  "passes_on path_exists r =
     (case r of (enforce_file_existence, cascaded, fn) \<Rightarrow>
        (case fn () of
           Inl e \<Rightarrow> False
         | Inr None \<Rightarrow> True
         | Inr (Some candidate) \<Rightarrow>
             candidate = [] \<or>
             (if path_exists candidate then cascaded else \<not> enforce_file_existence)))"

text \<open>The rules used in the worked examples: a supplier that returns a constant.\<close>

definition returns :: "string option \<Rightarrow> get_filename" where
  "returns v = (\<lambda>_. Inr v)"

definition on_disk :: "string list \<Rightarrow> string \<Rightarrow> bool" where
  "on_disk files p = (p \<in> set files)"

text \<open>
  The specification's wording of \<open>find_file\<close>, kept apart from the definition taken
  from the source: \<open>find_files\<close> over the structure with cascade forced to false on
  every rule, then the first element of the list, or null when the list is empty.
\<close>

definition force_no_cascade :: "(bool \<times> get_filename) list \<Rightarrow> research_rule list" where
  "force_no_cascade rs = map (\<lambda>r. (fst r, False, snd r)) rs"

definition find_file_spec ::
  "(string \<Rightarrow> bool) \<Rightarrow> (bool \<times> get_filename) list \<Rightarrow> bool \<Rightarrow> error + string option" where
  "find_file_spec path_exists rs raise_on_all_missing =
     (case find_files path_exists (force_no_cascade rs) raise_on_all_missing of
        Inl e \<Rightarrow> Inl e
      | Inr fs \<Rightarrow> Inr (if fs = [] then None else Some (hd fs)))"

section \<open>Cfg managers\<close>

text \<open>
  A parsed configuration is a nested mapping: a Python \<open>dict\<close> from string keys to
  values that are either leaves or dicts again. Dicts keep insertion order, so they are
  association lists; \<open>map_of\<close> reads a key and \<open>AList.update\<close> assigns one (in place
  when the key is present, at the end otherwise).
\<close>

datatype 'a val = Atom 'a | Dict "(string \<times> 'a val) list"

type_synonym 'a dct = "(string \<times> 'a val) list"

text \<open>The three manager classes of the module, the entries of \<open>_GENERIC_CFG\<close>.\<close>

datatype cm = PyCfg | ConfigObjCfg | YamlCfg

definition GENERIC_CFG :: "cm list" where
  "GENERIC_CFG = [PyCfg, ConfigObjCfg, YamlCfg]"

text \<open>
  What the module takes from outside: whether \<open>import configobj\<close> and \<open>import yaml\<close>
  succeeded, the effect of running \<open>open\<close>, \<open>compile\<close> and \<open>exec\<close> on a file with a
  starting namespace, and the load and save functions of the two libraries. Each can
  raise. What a save function writes is not part of the model, only whether it raises.
\<close>

record 'a runtime =
  configobj :: bool
  yaml :: bool
  exec_file :: "'a dct \<Rightarrow> string \<Rightarrow> error + 'a dct"
  loadConfigObj :: "string \<Rightarrow> error + 'a dct"
  loadYaml :: "string \<Rightarrow> error + 'a dct"
  saveConfigObj :: "string \<Rightarrow> 'a dct \<Rightarrow> error + unit"
  saveYaml :: "string \<Rightarrow> 'a dct \<Rightarrow> error + unit"

text \<open>
  An instance of a manager class: its class, \<open>_filename\<close>, the \<open>config\<close> of a \<open>PyCfg\<close>,
  and the slot of the cached property \<open>_cfg\<close> (\<open>None\<close> until the first successful
  access).
\<close>

record 'a Cfg =
  Cfg_class :: cm
  Cfg_filename :: string
  Cfg_config :: "'a dct option"
  Cfg_cache :: "'a dct option"

text \<open>
  Calling a class of \<open>_GENERIC_CFG\<close> on a filename. When its library is missing,
  \<open>ConfigObjCfg\<close> or \<open>YamlCfg\<close> is the function that raises \<open>ValueError\<close>.
\<close>

definition new_Cfg :: "'a runtime \<Rightarrow> cm \<Rightarrow> string \<Rightarrow> error + 'a Cfg" where
  "new_Cfg rt c filename =
     (let inst = \<lparr>Cfg_class = c, Cfg_filename = filename, Cfg_config = None,
                  Cfg_cache = None\<rparr>
      in case c of
           PyCfg \<Rightarrow> Inr inst
         | ConfigObjCfg \<Rightarrow>
             if configobj rt then Inr inst else Inl (ValueError_not_available ''configobj'')
         | YamlCfg \<Rightarrow>
             if yaml rt then Inr inst else Inl (ValueError_not_available ''yaml''))"

text \<open>
  The body of the property \<open>_cfg\<close> of each class. \<open>PyCfg\<close> starts from a copy of
  \<open>config\<close> (or the empty dict), turns a \<open>SyntaxError\<close> into its own, and drops the key
  \<open>__builtins__\<close>. The classes made by \<open>mkCustomCfg\<close> call their \<open>load\<close>.
\<close>

definition Cfg_cfg_body :: "'a runtime \<Rightarrow> 'a Cfg \<Rightarrow> error + 'a dct" where
  "Cfg_cfg_body rt b =
     (case Cfg_class b of
        PyCfg \<Rightarrow>
          (let cfg = (case Cfg_config b of None \<Rightarrow> [] | Some config \<Rightarrow> config)
           in case exec_file rt cfg (Cfg_filename b) of
                Inl (SyntaxError lineno offset) \<Rightarrow>
                  Inl (SyntaxError_in_config_file (Cfg_filename b) lineno offset)
              | Inl e \<Rightarrow> Inl e
              | Inr cfg' \<Rightarrow> Inr (filter (\<lambda>(k, v). k \<noteq> ''__builtins__'') cfg'))
      | ConfigObjCfg \<Rightarrow> loadConfigObj rt (Cfg_filename b)
      | YamlCfg \<Rightarrow> loadYaml rt (Cfg_filename b))"

text \<open>
  Modelled from the spec: the decorator \<open>cache\<close> of \<open>kids.cache\<close> is not in the
  sources. The specification gives it as a memoization primitive, per instance: the
  first access computes the value and stores it, later accesses return the stored value
  without recomputation. An access that raises stores nothing.

  The log records every run of a \<open>_cfg\<close> body, as (class, filename): one entry is one
  parse of the file.
\<close>

type_synonym parse_log = "(cm \<times> string) list"

definition Cfg_cfg ::
  "'a runtime \<Rightarrow> 'a Cfg \<Rightarrow> parse_log \<Rightarrow> (error + 'a dct) \<times> 'a Cfg \<times> parse_log" where
  "Cfg_cfg rt b log =
     (case Cfg_cache b of
        Some m \<Rightarrow> (Inr m, b, log)
      | None \<Rightarrow>
          (case Cfg_cfg_body rt b of
             Inl e \<Rightarrow> (Inl e, b, log @ [(Cfg_class b, Cfg_filename b)])
           | Inr m \<Rightarrow>
               (Inr m, b\<lparr>Cfg_cache := Some m\<rparr>, log @ [(Cfg_class b, Cfg_filename b)])))"

text \<open>
  \<open>save\<close>: the base class raises \<open>NotImplementedError\<close> and \<open>PyCfg\<close> does not override
  it; a class made by \<open>mkCustomCfg\<close> reads \<open>self._cfg\<close> and hands it to its \<open>save\<close>.
\<close>

definition Cfg_save ::
  "'a runtime \<Rightarrow> 'a Cfg \<Rightarrow> parse_log \<Rightarrow> (error + unit) \<times> 'a Cfg \<times> parse_log" where
  "Cfg_save rt b log =
     (case Cfg_class b of
        PyCfg \<Rightarrow> (Inl NotImplementedError, b, log)
      | ConfigObjCfg \<Rightarrow>
          (case Cfg_cfg rt b log of
             (Inl e, b', log') \<Rightarrow> (Inl e, b', log')
           | (Inr content, b', log') \<Rightarrow> (saveConfigObj rt (Cfg_filename b) content, b', log'))
      | YamlCfg \<Rightarrow>
          (case Cfg_cfg rt b log of
             (Inl e, b', log') \<Rightarrow> (Inl e, b', log')
           | (Inr content, b', log') \<Rightarrow> (saveYaml rt (Cfg_filename b) content, b', log')))"

text \<open>
  \<open>choose_cfg_manager\<close>: the loop over \<open>_GENERIC_CFG\<close>. The \<open>try\<close> body builds an
  instance and reads its \<open>_cfg\<close>, then builds a second instance and returns it. The
  clause \<open>except Exception: pass\<close> moves on to the next class after an error of a class
  under \<open>Exception\<close>; any other error leaves the function. After the loop comes the
  \<open>SyntaxError\<close>.
\<close>

fun choose_cfg_manager_loop ::
  "'a runtime \<Rightarrow> cm list \<Rightarrow> string \<Rightarrow> parse_log \<Rightarrow> (error + 'a Cfg) \<times> parse_log" where
  "choose_cfg_manager_loop rt [] filename log =
     (Inl (SyntaxError_no_config_parser filename), log)"
| "choose_cfg_manager_loop rt (c # cms) filename log =
     (case new_Cfg rt c filename of
        Inl e \<Rightarrow>
          if is_Exception e then choose_cfg_manager_loop rt cms filename log
          else (Inl e, log)
      | Inr trial \<Rightarrow>
          (case Cfg_cfg rt trial log of
             (Inl e, trial', log') \<Rightarrow>
               if is_Exception e then choose_cfg_manager_loop rt cms filename log'
               else (Inl e, log')
           | (Inr m, trial', log') \<Rightarrow>
               (case new_Cfg rt c filename of
                  Inl e \<Rightarrow>
                    if is_Exception e then choose_cfg_manager_loop rt cms filename log'
                    else (Inl e, log')
                | Inr returned \<Rightarrow> (Inr returned, log'))))"

definition choose_cfg_manager ::
  "'a runtime \<Rightarrow> string \<Rightarrow> parse_log \<Rightarrow> (error + 'a Cfg) \<times> parse_log" where
  "choose_cfg_manager rt filename log = choose_cfg_manager_loop rt GENERIC_CFG filename log"

text \<open>
  The trial of one class on a file, as a value: the construction followed by the body
  of \<open>_cfg\<close> on the new instance.
\<close>

definition trial_load :: "'a runtime \<Rightarrow> cm \<Rightarrow> string \<Rightarrow> error + 'a dct" where
  "trial_load rt c filename =
     (case new_Cfg rt c filename of Inl e \<Rightarrow> Inl e | Inr trial \<Rightarrow> Cfg_cfg_body rt trial)"

text \<open>A trial that fails with an error the \<open>except Exception:\<close> clause catches.\<close>

definition trial_caught :: "'a runtime \<Rightarrow> cm \<Rightarrow> string \<Rightarrow> bool" where
  "trial_caught rt c filename =
     (case trial_load rt c filename of Inl e \<Rightarrow> is_Exception e | Inr m \<Rightarrow> False)"

text \<open>The parses a failed run over some classes leaves in the log.\<close>

definition parses_of :: "'a runtime \<Rightarrow> cm list \<Rightarrow> string \<Rightarrow> parse_log" where
  "parses_of rt cms filename =
     map (\<lambda>c. (c, filename)) (filter (\<lambda>c. \<not> isl (new_Cfg rt c filename)) cms)"

text \<open>
  A runtime for the worked examples: \<open>configobj\<close> is not installed, \<open>yaml\<close> is; the
  files \<open>app.rc\<close> and \<open>/home/u/.app.rc\<close> run as Python and bind \<open>x\<close>, \<open>b\<close> and \<open>e\<close>,
  the file \<open>app.yml\<close> parses as YAML only, the file \<open>exit.yml\<close> parses as YAML too
  but calls \<open>sys.exit()\<close> when it is run as Python, and any other file is rejected by
  every parser.
\<close>

definition example_py :: "nat dct" where
  "example_py =
     [(''x'', Atom 1), (''b'', Dict [(''foo'', Atom 3), (''bar'', Dict [(''baz'', Atom 4)])]),
      (''e'', Dict [])]"

definition example_yaml :: "nat dct" where
  "example_yaml = [(''a'', Dict [(''b'', Atom 1)]), (''x'', Atom 2)]"

definition example_runtime :: "nat runtime" where
  "example_runtime =
     \<lparr>configobj = False, yaml = True,
      exec_file = (\<lambda>cfg f.
         if f = ''app.rc'' \<or> f = ''/home/u/.app.rc''
         then Inr (cfg @ (''__builtins__'', Atom 0) # example_py)
         else if f = ''exit.yml'' then Inl SystemExit
         else Inl (SyntaxError 1 2)),
      loadConfigObj = (\<lambda>f. Inl (OtherException ''ParseError'')),
      loadYaml = (\<lambda>f.
         if f = ''app.yml'' \<or> f = ''exit.yml'' then Inr example_yaml
         else Inl (OtherException ''ScannerError'')),
      saveConfigObj = (\<lambda>f content. Inr ()),
      saveYaml = (\<lambda>f content. Inr ())\<rparr>"

section \<open>Dotted paths into a nested mapping\<close>

text \<open>
  Modelled from the spec: the module \<open>mdict\<close> of \<open>kids.data\<close> (the path codec
  \<open>tokenize\<close> and the wrapper class \<open>mdict\<close>) is not in the sources. The specification
  gives the codec as splitting a dotted path into raw keys, with an escape character
  that lets a literal separator or a literal escape character stand inside a key; the
  docstring of \<open>Config\<close> names the two characters: the dot, and the backslash. An escape
  character in front of anything else stands for itself.
\<close>

definition separator :: char where
  "separator = CHR ''.''"

definition escape :: char where
  "escape = CHR 0x5C"

fun tokenize_from :: "string \<Rightarrow> string \<Rightarrow> string list" where
  "tokenize_from cur [] = [cur]"
| "tokenize_from cur [c] = (if c = separator then [cur, []] else [cur @ [c]])"
| "tokenize_from cur (c # d # rest) =
     (if c = escape \<and> (d = separator \<or> d = escape) then tokenize_from (cur @ [d]) rest
      else if c = separator then cur # tokenize_from [] (d # rest)
      else tokenize_from (cur @ [c]) (d # rest))"

definition tokenize :: "string \<Rightarrow> string list" where
  "tokenize label = tokenize_from [] label"

text \<open>
  Modelled from the spec: the navigation primitive behind \<open>mdict.__getitem__\<close> and
  \<open>mdict.__setitem__\<close>. Reading walks the mapping one key at a time and fails with the
  missing-key error naming the first key that cannot be found at its level (a key looked
  up in a leaf cannot be found). Assigning locates the parent mapping by the same walk
  and assigns the last key; a missing section on the way is created, as the docstring of
  \<open>Config\<close> shows for \<open>cfg['k.u'] = 2\<close>.
\<close>

fun mget :: "'a dct \<Rightarrow> string list \<Rightarrow> error + 'a val" where
  "mget d [] = Inr (Dict d)"
| "mget d [k] =
     (case map_of d k of None \<Rightarrow> Inl (MissingKeyError k) | Some v \<Rightarrow> Inr v)"
| "mget d (k # k' # ks) =
     (case map_of d k of
        None \<Rightarrow> Inl (MissingKeyError k)
      | Some (Atom a) \<Rightarrow> Inl (MissingKeyError k')
      | Some (Dict d') \<Rightarrow> mget d' (k' # ks))"

fun mset :: "'a dct \<Rightarrow> string list \<Rightarrow> 'a val \<Rightarrow> error + 'a dct" where
  "mset d [] v = Inl (MissingKeyError [])"
| "mset d [k] v = Inr (AList.update k v d)"
| "mset d (k # k' # ks) v =
     (case map_of d k of
        None \<Rightarrow>
          (case mset [] (k' # ks) v of
             Inl e \<Rightarrow> Inl e
           | Inr d' \<Rightarrow> Inr (AList.update k (Dict d') d))
      | Some (Atom a) \<Rightarrow> Inl (MissingKeyError k')
      | Some (Dict d') \<Rightarrow>
          (case mset d' (k' # ks) v of
             Inl e \<Rightarrow> Inl e
           | Inr d'' \<Rightarrow> Inr (AList.update k (Dict d'') d)))"

definition mdict_getitem :: "'a dct \<Rightarrow> string \<Rightarrow> error + 'a val" where
  "mdict_getitem d label = mget d (tokenize label)"

definition mdict_setitem :: "'a dct \<Rightarrow> string \<Rightarrow> 'a val \<Rightarrow> error + 'a dct" where
  "mdict_setitem d label v = mset d (tokenize label) v"

section \<open>Config\<close>

text \<open>
  An instance of \<open>Config\<close>: \<open>_prefix\<close>, \<open>_cfg_manager\<close> and \<open>_provided_cfg\<close>.

  \<open>_provided_cfg\<close> refers to a dict object. For a view made by \<open>__getitem__\<close> it is
  \<open>res.dct\<close>, the dict nested in the mapping that the parent view reads: the very
  object, so that an assignment through the view is an assignment inside the manager's
  mapping. The record holds the content of the provided dict in \<open>Config_provided_cfg\<close>
  and the place of the object in \<open>Config_provided_at\<close>: the keys that lead to it from
  the manager's mapping, or \<open>None\<close> for a dict of the caller's that is no part of that
  mapping.

  The cached properties \<open>_cfg\<close> and \<open>_mcfg\<close> of a view hold references to the dict
  chosen at the first access, so they have no slot of their own: they are read again at
  each access. A state of the model is one view together with its manager; an operation
  returns the view it was called on, with the manager as the operation left it.
\<close>

record 'a Config =
  Config_prefix :: "string list"
  Config_cfg_manager :: "'a Cfg"
  Config_provided_cfg :: "'a dct option"
  Config_provided_at :: "string list option"

text \<open>
  The first argument of \<open>Config\<close>: an instance of \<open>Cfg\<close>, or else a filename. A
  \<open>cfg\<close> given to the constructor is a dict of the caller's.
\<close>

datatype 'a config_arg = Manager "'a Cfg" | Filename string

definition Config_init ::
  "'a runtime \<Rightarrow> 'a config_arg \<Rightarrow> string list option \<Rightarrow> 'a dct option \<Rightarrow> parse_log
    \<Rightarrow> (error + 'a Config) \<times> parse_log" where
  "Config_init rt config prefix cfg log =
     (let prefix' = (case prefix of None \<Rightarrow> [] | Some p \<Rightarrow> p)
      in case config of
           Manager b \<Rightarrow>
             (Inr \<lparr>Config_prefix = prefix', Config_cfg_manager = b,
                   Config_provided_cfg = cfg, Config_provided_at = None\<rparr>, log)
         | Filename f \<Rightarrow>
             (case choose_cfg_manager rt f log of
                (Inl e, log') \<Rightarrow> (Inl e, log')
              | (Inr b, log') \<Rightarrow>
                  (Inr \<lparr>Config_prefix = prefix', Config_cfg_manager = b,
                        Config_provided_cfg = cfg, Config_provided_at = None\<rparr>, log')))"

text \<open>\<open>if self._provided_cfg:\<close> holds for a dict that is given and not empty.\<close>

definition truthy :: "'a dct option \<Rightarrow> bool" where
  "truthy cfg = (case cfg of None \<Rightarrow> False | Some m \<Rightarrow> m \<noteq> [])"

text \<open>
  The property \<open>_cfg\<close> of a view: the provided mapping when it is truthy, else the
  manager's \<open>_cfg\<close> (which may load the file and fill the manager's cache).
\<close>

definition Config_cfg ::
  "'a runtime \<Rightarrow> 'a Config \<Rightarrow> parse_log \<Rightarrow> (error + 'a dct) \<times> 'a Config \<times> parse_log" where
  "Config_cfg rt c log =
     (case Config_provided_cfg c of
        Some m \<Rightarrow>
          if m \<noteq> [] then (Inr m, c, log)
          else (case Cfg_cfg rt (Config_cfg_manager c) log of
                  (r, b, log') \<Rightarrow> (r, c\<lparr>Config_cfg_manager := b\<rparr>, log'))
      | None \<Rightarrow>
          (case Cfg_cfg rt (Config_cfg_manager c) log of
             (r, b, log') \<Rightarrow> (r, c\<lparr>Config_cfg_manager := b\<rparr>, log')))"

text \<open>
  Where the dict that \<open>_cfg\<close> gives sits in the manager's mapping: at the place of the
  provided dict when that one is read, at the root when the manager's mapping is read.
\<close>

definition Config_cfg_at :: "'a Config \<Rightarrow> string list option" where
  "Config_cfg_at c = (if truthy (Config_provided_cfg c) then Config_provided_at c else Some [])"

text \<open>
  \<open>__getitem__\<close> gives a leaf as it is, and a nested mapping as a new \<open>Config\<close> on the
  same manager, with the label appended to the prefix and the nested dict provided. That
  dict is the object found by walking the keys of the label from the dict that \<open>_cfg\<close>
  gave.
\<close>

datatype 'a item = Leaf 'a | View "'a Config"

definition wrap_item :: "'a Config \<Rightarrow> string \<Rightarrow> 'a val \<Rightarrow> 'a item" where
  "wrap_item c label res =
     (case res of
        Dict d \<Rightarrow>
          View \<lparr>Config_prefix = Config_prefix c @ [label],
                Config_cfg_manager = Config_cfg_manager c,
                Config_provided_cfg = Some d,
                Config_provided_at = map_option (\<lambda>loc. loc @ tokenize label) (Config_cfg_at c)\<rparr>
      | Atom a \<Rightarrow> Leaf a)"

definition Config_getitem ::
  "'a runtime \<Rightarrow> 'a Config \<Rightarrow> string \<Rightarrow> parse_log
    \<Rightarrow> (error + 'a item) \<times> 'a Config \<times> parse_log" where
  "Config_getitem rt c label log =
     (case Config_cfg rt c log of
        (Inl e, c', log') \<Rightarrow> (Inl e, c', log')
      | (Inr m, c', log') \<Rightarrow>
          (case mdict_getitem m label of
             Inl e \<Rightarrow> (Inl e, c', log')
           | Inr res \<Rightarrow> (Inr (wrap_item c' label res), c', log')))"

text \<open>\<open>__iter__\<close>: the keys of \<open>_cfg\<close>, in the dict's order.\<close>

definition Config_iter ::
  "'a runtime \<Rightarrow> 'a Config \<Rightarrow> parse_log \<Rightarrow> (error + string list) \<times> 'a Config \<times> parse_log" where
  "Config_iter rt c log =
     (case Config_cfg rt c log of
        (Inl e, c', log') \<Rightarrow> (Inl e, c', log')
      | (Inr m, c', log') \<Rightarrow> (Inr (map fst m), c', log'))"

text \<open>
  Modelled from the spec: \<open>Config\<close> takes \<open>__contains__\<close> from its base class
  \<open>dct.AttrDictAbstract\<close>, which is not in the sources. The specification gives
  containment as the existence of a single top-level key of the view.
\<close>

definition Config_contains ::
  "'a runtime \<Rightarrow> 'a Config \<Rightarrow> string \<Rightarrow> parse_log \<Rightarrow> (error + bool) \<times> 'a Config \<times> parse_log" where
  "Config_contains rt c key log =
     (case Config_iter rt c log of
        (Inl e, c', log') \<Rightarrow> (Inl e, c', log')
      | (Inr keys, c', log') \<Rightarrow> (Inr (key \<in> set keys), c', log'))"

text \<open>The mapping \<open>root\<close> with the dict at the keys \<open>loc\<close> holding the content \<open>m'\<close>.\<close>

fun put_at :: "'a dct \<Rightarrow> string list \<Rightarrow> 'a dct \<Rightarrow> 'a dct" where
  "put_at root [] m' = m'"
| "put_at root (k # ks) m' =
     (case map_of root k of
        Some (Dict d) \<Rightarrow> AList.update k (Dict (put_at d ks m')) root
      | Some (Atom a) \<Rightarrow> root
      | None \<Rightarrow> root)"

text \<open>
  \<open>__setitem__\<close>: the assignment through \<open>_mcfg\<close>, then the manager's \<open>save\<close>. The
  assignment changes, in place, the dict object that \<open>_cfg\<close> gave. When that is the
  manager's mapping, the manager's cache holds the new content. When it is the provided
  dict, the view holds the new content, and so does the manager's mapping at the place
  of that dict, the object being the same. Whatever \<open>save\<close> does, the assignment has
  happened.
\<close>

definition assigned :: "'a Config \<Rightarrow> 'a dct \<Rightarrow> 'a Config" where
  "assigned c m' =
     (if truthy (Config_provided_cfg c) then
        (case Config_provided_at c of
           None \<Rightarrow> c\<lparr>Config_provided_cfg := Some m'\<rparr>
         | Some loc \<Rightarrow>
             (case Cfg_cache (Config_cfg_manager c) of
                None \<Rightarrow> c\<lparr>Config_provided_cfg := Some m'\<rparr>
              | Some root \<Rightarrow>
                  c\<lparr>Config_provided_cfg := Some m',
                    Config_cfg_manager :=
                      (Config_cfg_manager c)\<lparr>Cfg_cache := Some (put_at root loc m')\<rparr>\<rparr>))
      else c\<lparr>Config_cfg_manager := (Config_cfg_manager c)\<lparr>Cfg_cache := Some m'\<rparr>\<rparr>)"

definition Config_setitem ::
  "'a runtime \<Rightarrow> 'a Config \<Rightarrow> string \<Rightarrow> 'a val \<Rightarrow> parse_log
    \<Rightarrow> (error + unit) \<times> 'a Config \<times> parse_log" where
  "Config_setitem rt c label v log =
     (case Config_cfg rt c log of
        (Inl e, c', log') \<Rightarrow> (Inl e, c', log')
      | (Inr m, c', log') \<Rightarrow>
          (case mdict_setitem m label v of
             Inl e \<Rightarrow> (Inl e, c', log')
           | Inr m' \<Rightarrow>
               (case Cfg_save rt (Config_cfg_manager (assigned c' m')) log' of
                  (r, b, log'') \<Rightarrow> (r, (assigned c' m')\<lparr>Config_cfg_manager := b\<rparr>, log''))))"

text \<open>The manager's cached mapping holds the value \<open>v\<close> at the keys \<open>ks\<close>.\<close>

definition in_manager :: "'a Config \<Rightarrow> string list \<Rightarrow> 'a val \<Rightarrow> bool" where
  "in_manager c ks v =
     (case Cfg_cache (Config_cfg_manager c) of
        None \<Rightarrow> False
      | Some root \<Rightarrow> mget root ks = Inr v)"

text \<open>
  The two parts of a view's record agree: a provided dict that is read and has a place
  is the dict found at that place in the manager's cached mapping.
\<close>

definition linked :: "'a Config \<Rightarrow> bool" where
  "linked c =
     (case Config_provided_cfg c of
        None \<Rightarrow> True
      | Some m \<Rightarrow>
          (if m = [] then True
           else (case Config_provided_at c of
                   None \<Rightarrow> True
                 | Some loc \<Rightarrow> in_manager c loc (Dict m))))"

text \<open>A key with no separator and no escape character in it.\<close>

definition plain :: "string \<Rightarrow> bool" where
  "plain k = (separator \<notin> set k \<and> escape \<notin> set k)"

text \<open>A path in which an escape character stands right before a separator.\<close>

fun has_escaped_separator :: "string \<Rightarrow> bool" where
  "has_escaped_separator (c # d # rest) =
     (c = escape \<and> d = separator \<or> has_escaped_separator (d # rest))"
| "has_escaped_separator [c] = False"
| "has_escaped_separator [] = False"

text \<open>Two results of \<open>__getitem__\<close> compared with the recorded prefix left aside.\<close>

definition forget_prefix :: "'a item \<Rightarrow> 'a item" where
  "forget_prefix x =
     (case x of Leaf a \<Rightarrow> Leaf a | View w \<Rightarrow> View (w\<lparr>Config_prefix := []\<rparr>))"

text \<open>
  Views for the worked examples: \<open>Config(PyCfg('app.rc'))\<close> before its first access
  and after it, the same on a file that does not load, and a view on a nested dict of the
  loaded mapping.
\<close>

definition example_Config :: "nat Config" where
  "example_Config =
     \<lparr>Config_prefix = [],
      Config_cfg_manager = \<lparr>Cfg_class = PyCfg, Cfg_filename = ''app.rc'',
                            Cfg_config = None, Cfg_cache = None\<rparr>,
      Config_provided_cfg = None, Config_provided_at = None\<rparr>"

definition example_loaded :: "nat Config" where
  "example_loaded =
     \<lparr>Config_prefix = [],
      Config_cfg_manager = \<lparr>Cfg_class = PyCfg, Cfg_filename = ''app.rc'',
                            Cfg_config = None, Cfg_cache = Some example_py\<rparr>,
      Config_provided_cfg = None, Config_provided_at = None\<rparr>"


definition example_subview :: "string list \<Rightarrow> string list \<Rightarrow> nat dct \<Rightarrow> nat Config" where
  "example_subview p loc sub =
     \<lparr>Config_prefix = p, Config_cfg_manager = Config_cfg_manager example_loaded,
      Config_provided_cfg = Some sub, Config_provided_at = Some loc\<rparr>"

text \<open>
  The loaded mapping after \<open>cfg.b.bar = 2\<close>, and the view on \<open>b\<close> that made the
  assignment.
\<close>

definition example_py_assigned :: "nat dct" where
  "example_py_assigned =
     [(''x'', Atom 1), (''b'', Dict [(''foo'', Atom 3), (''bar'', Atom 2)]), (''e'', Dict [])]"


section \<open>\<open>load_files\<close> and \<open>load\<close>\<close>

text \<open>
  What \<open>load\<close> reads from the process and the file system: \<open>sys.argv[0]\<close>,
  \<open>os.environ.get\<close>, \<open>os.path.expanduser\<close> and \<open>os.path.exists\<close>.
\<close>

record os_env =
  sys_argv0 :: string
  os_environ_get :: "string \<Rightarrow> string option"
  os_path_expanduser :: "string \<Rightarrow> string"
  os_path_exists :: "string \<Rightarrow> bool"

text \<open>\<open>os.path.basename\<close>: what follows the last slash.\<close>

definition os_path_basename :: "string \<Rightarrow> string" where
  "os_path_basename p = rev (takeWhile (\<lambda>c. c \<noteq> CHR ''/'') (rev p))"

text \<open>\<open>str.upper\<close> and \<open>str.endswith\<close>, on ASCII.\<close>

definition upper :: "string \<Rightarrow> string" where
  "upper s =
     map (\<lambda>c. case map_of (zip ''abcdefghijklmnopqrstuvwxyz'' ''ABCDEFGHIJKLMNOPQRSTUVWXYZ'') c of
                 None \<Rightarrow> c | Some u \<Rightarrow> u) s"

definition endswith :: "string \<Rightarrow> string \<Rightarrow> bool" where
  "endswith s suffix =
     (length suffix \<le> length s \<and> drop (length s - length suffix) s = suffix)"

text \<open>
  \<open>dct.MultiDictReader\<close> belongs to \<open>kids.data\<close>; here it is the list of configs it
  is built from. \<open>load_files\<close> calls the factory on each filename in order; the factory
  may raise and may change a state of its own (\<open>Config\<close> parses the file).
\<close>

datatype 'c MultiDictReader = MultiDictReader "'c list"

fun load_files_list ::
  "(string \<Rightarrow> 's \<Rightarrow> (error + 'c) \<times> 's) \<Rightarrow> string list \<Rightarrow> 's \<Rightarrow> (error + 'c list) \<times> 's" where
  "load_files_list config_factory [] st = (Inr [], st)"
| "load_files_list config_factory (f # filenames) st =
     (case config_factory f st of
        (Inl e, st') \<Rightarrow> (Inl e, st')
      | (Inr c, st') \<Rightarrow>
          (case load_files_list config_factory filenames st' of
             (Inl e, st'') \<Rightarrow> (Inl e, st'')
           | (Inr cs, st'') \<Rightarrow> (Inr (c # cs), st'')))"

definition load_files ::
  "(string \<Rightarrow> 's \<Rightarrow> (error + 'c) \<times> 's) \<Rightarrow> string list \<Rightarrow> 's
    \<Rightarrow> (error + 'c MultiDictReader) \<times> 's" where
  "load_files config_factory filenames st =
     (case load_files_list config_factory filenames st of
        (Inl e, st') \<Rightarrow> (Inl e, st')
      | (Inr cs, st') \<Rightarrow> (Inr (MultiDictReader cs), st'))"

text \<open>The default factory: \<open>Config(f)\<close> on a filename.\<close>

definition Config_factory ::
  "'a runtime \<Rightarrow> string \<Rightarrow> parse_log \<Rightarrow> (error + 'a Config) \<times> parse_log" where
  "Config_factory rt f log = Config_init rt (Filename f) None None log"

text \<open>
  The \<open>config_struct\<close> that \<open>load\<close> builds when none is given. The supplier added under
  \<open>if local_path:\<close> formats its path with the name \<open>b\<close>, which is bound nowhere in the
  module: calling it raises \<open>NameError\<close>. The \<open>extend\<close> call adds the home-directory rule
  twice, then the \<open>/etc\<close> rule.
\<close>

definition default_config_struct ::
  "os_env \<Rightarrow> string \<Rightarrow> string option \<Rightarrow> string option \<Rightarrow> research_rule list" where
  "default_config_struct os basename config_file local_path =
     [(True, False, \<lambda>_. Inr config_file),
      (True, False, \<lambda>_. Inr (os_environ_get os (upper basename @ ''_CONFIG_FILENAME'')))]
     @ (if (case local_path of None \<Rightarrow> False | Some lp \<Rightarrow> lp \<noteq> [])
        then [(False, True, \<lambda>_. Inl (NameError ''b''))] else [])
     @ [(False, True, \<lambda>_. Inr (Some (os_path_expanduser os (''~/.'' @ basename @ ''.rc'')))),
        (False, True, \<lambda>_. Inr (Some (os_path_expanduser os (''~/.'' @ basename @ ''.rc'')))),
        (False, True, \<lambda>_. Inr (Some (''/etc/'' @ basename @ ''.rc'')))]"

text \<open>
  \<open>load\<close>. The argument \<open>default\<close> (here \<open>default_arg\<close>) is \<open>None\<close> for the sentinel
  \<open>Null\<close>, that is when no default is given; the result is the reader over the loaded
  files, or \<open>default\<close> as it is.
\<close>

datatype ('c, 'd) loaded = Loaded "'c MultiDictReader" | Default "'d option"

definition load ::
  "os_env \<Rightarrow> (string \<Rightarrow> 's \<Rightarrow> (error + 'c) \<times> 's) \<Rightarrow> string option \<Rightarrow> 'd option
    \<Rightarrow> string option \<Rightarrow> string option \<Rightarrow> research_rule list option \<Rightarrow> 's
    \<Rightarrow> (error + ('c, 'd) loaded) \<times> 's" where
  "load os config_factory basename default_arg config_file local_path config_struct st =
     (let basename' =
            (case basename of
               None \<Rightarrow>
                 (let b = os_path_basename (sys_argv0 os)
                  in if endswith b ''.py'' then take (length b - 3) b else b)
             | Some b \<Rightarrow> b);
          config_struct' =
            (case config_struct of
               None \<Rightarrow> default_config_struct os basename' config_file local_path
             | Some cs \<Rightarrow> cs)
      in case find_files (os_path_exists os) config_struct' (default_arg = None) of
           Inl e \<Rightarrow> (Inl e, st)
         | Inr filenames \<Rightarrow>
             if length filenames \<noteq> 0
             then (case load_files config_factory filenames st of
                     (Inl e, st') \<Rightarrow> (Inl e, st')
                   | (Inr reader, st') \<Rightarrow> (Inr (Loaded reader), st'))
             else (Inr (Default default_arg), st))"

text \<open>
  A process for the worked examples: the executable is \<open>/usr/bin/app.py\<close>, no
  environment variable is set, the home directory is \<open>/home/u\<close>, and the only
  configuration file on disk is \<open>/home/u/.app.rc\<close>.
\<close>

definition example_os :: os_env where
  "example_os =
     \<lparr>sys_argv0 = ''/usr/bin/app.py'',
      os_environ_get = (\<lambda>name. None),
      os_path_expanduser = (\<lambda>p. if take 2 p = ''~/'' then ''/home/u/'' @ drop 2 p else p),
      os_path_exists = on_disk [''/home/u/.app.rc'']\<rparr>"

definition example_home_Config :: "nat Config" where
  "example_home_Config =
     \<lparr>Config_prefix = [],
      Config_cfg_manager = \<lparr>Cfg_class = PyCfg, Cfg_filename = ''/home/u/.app.rc'',
                            Cfg_config = None, Cfg_cache = None\<rparr>,
      Config_provided_cfg = None, Config_provided_at = None\<rparr>"

section \<open>Properties of file discovery\<close>

lemma find_files_loop_no_cascade:
  assumes "\<forall>r\<in>set rs. \<not> fst (snd r)"
    and "find_files_loop ex rs [] ps = Inr (fs, ps')"
  shows "fs = (case Option.bind (find (produces_existing ex) rs) produced of
                 None \<Rightarrow> [] | Some p \<Rightarrow> [p])"
  using assms
proof (induction rs arbitrary: ps)
  case Nil
  then show ?case by simp
next
  case (Cons r rs)
  obtain enf casc fn where r: "r = (enf, casc, fn)" by (cases r) auto
  with Cons.prems have nc: "\<not> casc" by simp
  from Cons.prems have rest: "\<forall>r\<in>set rs. \<not> fst (snd r)" by simp
  show ?case
  proof (cases "produces_existing ex r")
    case True
    then obtain p where p: "fn () = Inr (Some p)" "p \<noteq> []" "ex p"
      by (auto simp: produces_existing_def produced_def r
               split: sum.splits option.splits if_splits)
    with Cons.prems(2) nc have "fs = [p]" by (simp add: r)
    moreover have "produced r = Some p" using p by (simp add: produced_def r)
    ultimately show ?thesis using True by simp
  next
    case False
    then have "\<exists>ps2. find_files_loop ex rs [] ps2 = Inr (fs, ps')"
      using Cons.prems(2)
      by (auto simp: produces_existing_def produced_def r
               split: sum.splits option.splits if_splits)
    then obtain ps2 where "find_files_loop ex rs [] ps2 = Inr (fs, ps')" by blast
    from Cons.IH[OF rest this] False show ?thesis by simp
  qed
qed

text \<open>
  C1. When every rule has \<open>cascaded = False\<close>, a list returned by \<open>find_files\<close> has at
  most one element, and that element is the filename produced by the first rule, in
  order, whose produced filename exists on disk; the list is empty when there is no such
  rule.
\<close>

theorem find_files_no_cascade_first_existing:
  assumes "\<forall>r\<in>set rs. \<not> fst (snd r)"
    and "find_files ex rs raise_on_all_missing = Inr fs"
  shows "length fs \<le> 1 \<and>
         fs = (case Option.bind (find (produces_existing ex) rs) produced of
                 None \<Rightarrow> [] | Some p \<Rightarrow> [p])"
proof -
  from assms(2) obtain ps where "find_files_loop ex rs [] [] = Inr (fs, ps)"
    by (auto simp: find_files_def split: sum.splits prod.splits if_splits)
  from find_files_loop_no_cascade[OF assms(1) this]
  show ?thesis by (simp split: option.splits)
qed

theorem find_files_no_cascade_first_existing_witness:
  "find_files (on_disk [''foo.rc'', ''.foo.rc''])
     [(False, False, returns (Some ''bar.rc'')), (False, False, returns (Some ''.foo.rc'')),
      (False, False, returns (Some ''foo.rc''))] True = Inr [''.foo.rc'']
   \<and> length [''.foo.rc''] \<le> (1::nat)
   \<and> Option.bind (find (produces_existing (on_disk [''foo.rc'', ''.foo.rc'']))
        [(False, False, returns (Some ''bar.rc'')), (False, False, returns (Some ''.foo.rc'')),
         (False, False, returns (Some ''foo.rc''))]) produced = Some ''.foo.rc''"
  using find_files_no_cascade_first_existing
    [of "[(False, False, returns (Some ''bar.rc'')), (False, False, returns (Some ''.foo.rc'')),
          (False, False, returns (Some ''foo.rc''))]"
        "on_disk [''foo.rc'', ''.foo.rc'']" True "[''.foo.rc'']"]
  by (simp add: find_files_def returns_def on_disk_def produces_existing_def produced_def)

subsection \<open>Enforced existence\<close>

lemma find_files_loop_passes_on:
  assumes "\<forall>r\<in>set pre. passes_on ex r"
    and "\<And>fns ps. find_files_loop ex rest fns ps = Inl e"
  shows "find_files_loop ex (pre @ rest) fns ps = Inl e"
  using assms(1)
proof (induction pre arbitrary: fns ps)
  case Nil
  show ?case by (simp add: assms(2))
next
  case (Cons r pre)
  obtain enf casc fn where r: "r = (enf, casc, fn)" by (cases r) auto
  from Cons.prems have here: "passes_on ex r" and rest: "\<forall>r\<in>set pre. passes_on ex r"
    by simp_all
  from here show ?case
    by (auto simp: passes_on_def r Cons.IH[OF rest] split: sum.splits option.splits if_splits)
qed

text \<open>
  C3, as the code has it. An enforced rule whose supplier returns a missing path makes
  \<open>find_files\<close> fail with the error naming that path whenever the loop reaches the
  rule, that is when every earlier rule passes on (no candidate, a tolerated missing
  path, or an existing path with cascading on). The rules after it, and
  \<open>raise_on_all_missing\<close>, do not matter.
\<close>

theorem find_files_enforce_missing_reached:
  assumes "\<forall>r\<in>set pre. passes_on ex r"
    and "fn () = Inr (Some p)" and "p \<noteq> []" and "\<not> ex p"
  shows "find_files ex (pre @ (True, casc, fn) # post) raise_on_all_missing
           = Inl (ValueError_file_does_not_exists p)"
proof -
  have "find_files_loop ex ((True, casc, fn) # post) fns ps
          = Inl (ValueError_file_does_not_exists p)" for fns ps
    using assms(2-4) by simp
  from find_files_loop_passes_on[OF assms(1) this]
  show ?thesis by (simp add: find_files_def)
qed

theorem find_files_enforce_missing_reached_witness:
  "find_files (on_disk [''foo.rc''])
     ([(False, True, returns (Some ''foo.rc'')), (False, False, returns (Some ''baz.rc''))]
        @ (True, True, returns (Some ''bar.rc'')) # [(True, False, returns (Some ''.foo.rc''))])
     False
   = Inl (ValueError_file_does_not_exists ''bar.rc'')"
  using find_files_enforce_missing_reached
    [of "[(False, True, returns (Some ''foo.rc'')), (False, False, returns (Some ''baz.rc''))]"
        "on_disk [''foo.rc'']" "returns (Some ''bar.rc'')" "''bar.rc''" True
        "[(True, False, returns (Some ''.foo.rc''))]" False]
  by (simp add: passes_on_def returns_def on_disk_def)

text \<open>
  C3, as the specification states it ("regardless of the outcomes of the other rules"),
  fails: an earlier non-cascading rule whose file exists ends the loop before the
  enforced rule is evaluated, and \<open>find_files\<close> returns normally.
\<close>

theorem find_files_enforce_missing_counterexample:
  "\<not> on_disk [''foo.rc''] ''bar.rc''
   \<and> find_files (on_disk [''foo.rc''])
       [(False, False, returns (Some ''foo.rc'')), (True, False, returns (Some ''bar.rc''))]
       True
     = Inr [''foo.rc'']"
  by (simp add: find_files_def returns_def on_disk_def)

subsection \<open>A supplier that returns no value\<close>

lemma find_files_loop_skip:
  assumes "fn () = Inr c" and "c = None \<or> c = Some []"
  shows "find_files_loop ex (pre @ (enf, casc, fn) # post) fns ps
           = find_files_loop ex (pre @ post) fns ps"
proof (induction pre arbitrary: fns ps)
  case Nil
  from assms show ?case by auto
next
  case (Cons r pre)
  obtain enf' casc' fn' where r: "r = (enf', casc', fn')" by (cases r) auto
  show ?case
    by (simp add: r Cons.IH split: sum.splits option.splits)
qed

text \<open>
  C6. A rule with \<open>enforce_file_existence = True\<close> whose supplier returns \<open>None\<close> (or
  the empty string) is skipped: the loop goes on to the next rule with both accumulators
  unchanged, and \<open>find_files\<close> gives exactly what it gives on the list without that rule,
  so the rule itself never makes it raise.
\<close>

theorem find_files_enforce_null_skipped:
  assumes "fn () = Inr c" and "c = None \<or> c = Some []"
  shows "find_files_loop ex ((True, casc, fn) # post) fns ps = find_files_loop ex post fns ps
       \<and> find_files ex (pre @ (True, casc, fn) # post) raise_on_all_missing
           = find_files ex (pre @ post) raise_on_all_missing"
proof
  from assms show
    "find_files_loop ex ((True, casc, fn) # post) fns ps = find_files_loop ex post fns ps"
    by auto
  show "find_files ex (pre @ (True, casc, fn) # post) raise_on_all_missing
          = find_files ex (pre @ post) raise_on_all_missing"
    by (simp add: find_files_def find_files_loop_skip[where fn=fn and c=c, OF assms])
qed

theorem find_files_enforce_null_skipped_witness:
  "find_files (on_disk [''foo.rc'', ''.foo.rc''])
     ([] @ (True, True, returns None) # [(True, False, returns (Some ''.foo.rc''))]) True
   = Inr [''.foo.rc'']"
  using find_files_enforce_null_skipped
    [of "returns None" None "on_disk [''foo.rc'', ''.foo.rc'']" True
        "[(True, False, returns (Some ''.foo.rc''))]" "[]" "[]" "[]" True]
  by (simp add: find_files_def returns_def on_disk_def)

subsection \<open>Nothing found\<close>

lemma find_files_loop_extends:
  assumes "find_files_loop ex rs fns ps = Inr (fns', ps')"
  shows "length fns \<le> length fns'"
  using assms
proof (induction rs arbitrary: fns ps)
  case Nil
  then show ?case by simp
next
  case (Cons r rs)
  obtain enf casc fn where r: "r = (enf, casc, fn)" by (cases r) auto
  from Cons.prems show ?case
    by (auto simp: r split: sum.splits option.splits if_splits dest!: Cons.IH)
qed

lemma find_files_loop_nothing_collected:
  assumes "find_files_loop ex rs fns ps = Inr ([], ps')"
  shows "ps' = ps @ List.map_filter produced rs"
  using assms
proof (induction rs arbitrary: fns ps)
  case Nil
  then show ?case by (simp add: List.map_filter_simps)
next
  case (Cons r rs)
  obtain enf casc fn where r: "r = (enf, casc, fn)" by (cases r) auto
  have no_hit: "find_files_loop ex rs (fns @ [x]) ps \<noteq> Inr ([], ps')" for x
    using find_files_loop_extends[of ex rs "fns @ [x]" ps "[]" ps'] by auto
  from Cons.prems no_hit show ?case
    by (auto simp: r produced_def List.map_filter_simps
             split: sum.splits option.splits if_splits dest!: Cons.IH)
qed

text \<open>
  C7. When the loop ends with no filename collected, \<open>find_files\<close> with
  \<open>raise_on_all_missing = True\<close> fails with the error carrying the searched paths joined
  by \<open>', '\<close>; those are the paths produced by all the rules, in rule order. With
  \<open>raise_on_all_missing = False\<close> it returns the empty list. On the empty research
  structure the error lists no path.
\<close>

theorem find_files_nothing_collected:
  assumes "find_files_loop ex rs [] [] = Inr ([], ps)"
  shows "find_files ex rs True = Inl (ValueError_no_config_file_found (join '', '' ps))
       \<and> ps = List.map_filter produced rs
       \<and> find_files ex rs False = Inr []
       \<and> find_files ex [] True = Inl (ValueError_no_config_file_found [])
       \<and> find_files ex [] False = Inr []"
  using assms find_files_loop_nothing_collected[OF assms]
  by (simp add: find_files_def)

theorem find_files_nothing_collected_witness:
  "find_files (on_disk [''foo.rc''])
     [(False, False, returns (Some ''bar.rc'')), (True, True, returns None),
      (False, False, returns (Some ''.bar.rc''))] True
   = Inl (ValueError_no_config_file_found ''bar.rc, .bar.rc'')
   \<and> find_files (on_disk [''foo.rc''])
     [(False, False, returns (Some ''bar.rc'')), (True, True, returns None),
      (False, False, returns (Some ''.bar.rc''))] False
   = Inr []"
  using find_files_nothing_collected
    [of "on_disk [''foo.rc'']"
        "[(False, False, returns (Some ''bar.rc'')), (True, True, returns None),
          (False, False, returns (Some ''.bar.rc''))]"
        "[''bar.rc'', ''.bar.rc'']"]
  by (simp add: returns_def on_disk_def)

subsection \<open>\<open>find_file\<close>\<close>

lemma find_file_forced_rules:
  "map (\<lambda>(enforce_file_existence, fn). (enforce_file_existence, False, fn)) rs
     = force_no_cascade rs"
  by (simp add: force_no_cascade_def case_prod_beta)

lemma force_no_cascade_at_most_one:
  assumes "find_files ex (force_no_cascade rs) raise_on_all_missing = Inr fs"
  shows "fs = [] \<and> \<not> raise_on_all_missing \<or> (\<exists>f. fs = [f])"
proof -
  from assms obtain ps where
    loop: "find_files_loop ex (force_no_cascade rs) [] [] = Inr (fs, ps)"
    and nonempty: "fs = [] \<longrightarrow> \<not> raise_on_all_missing"
    by (auto simp: find_files_def split: sum.splits prod.splits if_splits)
  have "\<forall>r\<in>set (force_no_cascade rs). \<not> fst (snd r)"
    by (simp add: force_no_cascade_def)
  from find_files_loop_no_cascade[OF this loop] nonempty
  show ?thesis by (auto split: option.splits)
qed

text \<open>
  C8. \<open>find_file\<close> agrees with the specification's wording on every research structure
  and both values of \<open>raise_on_all_missing\<close>. An error of \<open>find_files\<close> is passed on
  unchanged. A returned list is either empty, which happens only when
  \<open>raise_on_all_missing\<close> is false and then gives \<open>None\<close>, or has exactly one element,
  which is the result.
\<close>

theorem find_file_refines_find_files:
  "find_file ex rs raise_on_all_missing = find_file_spec ex rs raise_on_all_missing
   \<and> (case find_files ex (force_no_cascade rs) raise_on_all_missing of
        Inl e \<Rightarrow> find_file ex rs raise_on_all_missing = Inl e
      | Inr fs \<Rightarrow>
          (fs = [] \<and> \<not> raise_on_all_missing
             \<and> find_file ex rs raise_on_all_missing = Inr None)
          \<or> (\<exists>f. fs = [f] \<and> find_file ex rs raise_on_all_missing = Inr (Some f)))"
proof (cases "find_files ex (force_no_cascade rs) raise_on_all_missing")
  case (Inl e)
  then show ?thesis
    by (simp add: find_file_def find_file_spec_def find_file_forced_rules)
next
  case (Inr fs)
  from force_no_cascade_at_most_one[OF Inr] Inr show ?thesis
    by (auto simp: find_file_def find_file_spec_def find_file_forced_rules)
qed

theorem find_file_refines_find_files_witness:
  "find_file (on_disk [''foo.rc'', ''.foo.rc''])
     [(False, returns (Some ''bar.rc'')), (True, returns (Some ''.foo.rc''))] True
     = Inr (Some ''.foo.rc'')
   \<and> find_file_spec (on_disk [''foo.rc'', ''.foo.rc''])
     [(False, returns (Some ''bar.rc'')), (True, returns (Some ''.foo.rc''))] True
     = Inr (Some ''.foo.rc'')
   \<and> find_file (on_disk [''foo.rc'', ''.foo.rc''])
     [(False, returns (Some ''bar.rc'')), (False, returns (Some ''.bar.rc''))] False
     = Inr None"
  using find_file_refines_find_files
    [of "on_disk [''foo.rc'', ''.foo.rc'']"
        "[(False, returns (Some ''bar.rc'')), (True, returns (Some ''.foo.rc''))]" True]
  by (simp add: find_file_def find_file_spec_def force_no_cascade_def find_files_def
        returns_def on_disk_def)

section \<open>Properties of automatic dialect detection\<close>

lemma new_Cfg_error: "new_Cfg rt c filename = Inl e \<Longrightarrow> is_Exception e"
  by (auto simp: new_Cfg_def Let_def split: cm.splits if_splits)

lemma new_Cfg_instance:
  "new_Cfg rt c filename = Inr b \<Longrightarrow>
     b = \<lparr>Cfg_class = c, Cfg_filename = filename, Cfg_config = None, Cfg_cache = None\<rparr>"
  by (auto simp: new_Cfg_def Let_def split: cm.splits if_splits)

lemma choose_cfg_manager_loop_failures:
  assumes "\<forall>c\<in>set pre. trial_caught rt c filename"
  shows "choose_cfg_manager_loop rt (pre @ rest) filename log
           = choose_cfg_manager_loop rt rest filename (log @ parses_of rt pre filename)"
  using assms
proof (induction pre arbitrary: log)
  case Nil
  show ?case by (simp add: parses_of_def)
next
  case (Cons c pre)
  from Cons.prems have here: "trial_caught rt c filename"
    and rest: "\<forall>c\<in>set pre. trial_caught rt c filename" by simp_all
  show ?case
  proof (cases "new_Cfg rt c filename")
    case (Inl e)
    with new_Cfg_error[OF Inl] show ?thesis
      using Cons.IH[OF rest] by (simp add: parses_of_def)
  next
    case (Inr trial)
    with here obtain e where body: "Cfg_cfg_body rt trial = Inl e" and caught: "is_Exception e"
      by (cases "Cfg_cfg_body rt trial") (auto simp: trial_caught_def trial_load_def)
    from new_Cfg_instance[OF Inr] have fresh: "Cfg_cache trial = None" "Cfg_class trial = c"
      "Cfg_filename trial = filename"
      by simp_all
    show ?thesis
      using Inr body caught fresh Cons.IH[OF rest] by (simp add: Cfg_cfg_def parses_of_def)
  qed
qed

lemma choose_cfg_manager_loop_success:
  assumes "trial_load rt c filename = Inr m"
  shows "choose_cfg_manager_loop rt (c # post) filename log
           = (Inr \<lparr>Cfg_class = c, Cfg_filename = filename, Cfg_config = None,
                   Cfg_cache = None\<rparr>, log @ [(c, filename)])"
proof -
  from assms have new:
    "new_Cfg rt c filename
       = Inr \<lparr>Cfg_class = c, Cfg_filename = filename, Cfg_config = None, Cfg_cache = None\<rparr>"
    by (auto simp: trial_load_def split: sum.splits dest: new_Cfg_instance)
  with assms have
    "Cfg_cfg_body rt \<lparr>Cfg_class = c, Cfg_filename = filename, Cfg_config = None,
                      Cfg_cache = None\<rparr> = Inr m"
    by (simp add: trial_load_def)
  with new show ?thesis by (simp add: Cfg_cfg_def)
qed

lemma choose_cfg_manager_loop_not_caught:
  assumes "trial_load rt c filename = Inl e" and "\<not> is_Exception e"
  shows "choose_cfg_manager_loop rt (c # post) filename log = (Inl e, log @ [(c, filename)])"
proof (cases "new_Cfg rt c filename")
  case (Inl e')
  with assms new_Cfg_error[OF Inl] show ?thesis by (simp add: trial_load_def)
next
  case (Inr trial)
  with assms have "Cfg_cfg_body rt trial = Inl e" by (simp add: trial_load_def)
  with Inr assms(2) new_Cfg_instance[OF Inr] show ?thesis by (simp add: Cfg_cfg_def)
qed

text \<open>
  C2, as the code has it. \<open>choose_cfg_manager\<close> goes through \<open>_GENERIC_CFG\<close> in order;
  when every class before \<open>c\<close> fails its trial (at construction or at load) with an
  error of a class under \<open>Exception\<close>, and the trial of \<open>c\<close> succeeds, the result is an
  instance of \<open>c\<close> on the file, and the classes after \<open>c\<close> are not tried. The instance
  returned is a second, new one: its cache slot is empty, and its first \<open>_cfg\<close> access
  runs the load again (one more log entry) before holding the mapping.
\<close>

theorem choose_cfg_manager_first_success:
  assumes "GENERIC_CFG = pre @ c # post"
    and "\<forall>c'\<in>set pre. trial_caught rt c' filename"
    and "trial_load rt c filename = Inr m"
    and "returned = \<lparr>Cfg_class = c, Cfg_filename = filename, Cfg_config = None,
                      Cfg_cache = None\<rparr>"
  shows "choose_cfg_manager rt filename log
           = (Inr returned, log @ parses_of rt pre filename @ [(c, filename)])
       \<and> Cfg_cache returned = None
       \<and> Cfg_cfg rt returned log'
           = (Inr m, returned\<lparr>Cfg_cache := Some m\<rparr>, log' @ [(c, filename)])"
proof -
  have "choose_cfg_manager rt filename log
          = choose_cfg_manager_loop rt (c # post) filename (log @ parses_of rt pre filename)"
    unfolding choose_cfg_manager_def assms(1)
    by (rule choose_cfg_manager_loop_failures[OF assms(2)])
  also have "\<dots> = (Inr returned, (log @ parses_of rt pre filename) @ [(c, filename)])"
    unfolding assms(4) by (rule choose_cfg_manager_loop_success[OF assms(3)])
  finally have sel: "choose_cfg_manager rt filename log
          = (Inr returned, log @ parses_of rt pre filename @ [(c, filename)])"
    by simp
  from assms(3) have
    "new_Cfg rt c filename = Inr returned"
    by (auto simp: assms(4) trial_load_def split: sum.splits dest: new_Cfg_instance)
  with assms(3) have "Cfg_cfg_body rt returned = Inr m"
    by (simp add: trial_load_def)
  then have "Cfg_cfg rt returned log'
           = (Inr m, returned\<lparr>Cfg_cache := Some m\<rparr>, log' @ [(c, filename)])"
    by (simp add: Cfg_cfg_def assms(4))
  with sel show ?thesis by (simp add: assms(4))
qed

theorem choose_cfg_manager_first_success_witness:
  "choose_cfg_manager example_runtime ''app.yml'' []
     = (Inr \<lparr>Cfg_class = YamlCfg, Cfg_filename = ''app.yml'', Cfg_config = None,
             Cfg_cache = None\<rparr>,
        [(PyCfg, ''app.yml''), (YamlCfg, ''app.yml'')])
   \<and> Cfg_cfg example_runtime
       \<lparr>Cfg_class = YamlCfg, Cfg_filename = ''app.yml'', Cfg_config = None,
        Cfg_cache = None\<rparr> [(PyCfg, ''app.yml''), (YamlCfg, ''app.yml'')]
     = (Inr example_yaml,
        \<lparr>Cfg_class = YamlCfg, Cfg_filename = ''app.yml'', Cfg_config = None,
         Cfg_cache = Some example_yaml\<rparr>,
        [(PyCfg, ''app.yml''), (YamlCfg, ''app.yml''), (YamlCfg, ''app.yml'')])"
  using choose_cfg_manager_first_success
    [of "[PyCfg, ConfigObjCfg]" YamlCfg "[]" example_runtime "''app.yml''" example_yaml
        "\<lparr>Cfg_class = YamlCfg, Cfg_filename = ''app.yml'', Cfg_config = None,
          Cfg_cache = None\<rparr>"
        "[]" "[(PyCfg, ''app.yml''), (YamlCfg, ''app.yml'')]"]
  by (simp add: GENERIC_CFG_def trial_caught_def trial_load_def new_Cfg_def Cfg_cfg_body_def
        parses_of_def example_runtime_def)

text \<open>
  An error outside \<open>Exception\<close> raised by a trial is not caught: when the classes before
  \<open>c\<close> fail with caught errors and the trial of \<open>c\<close> raises such an error,
  \<open>choose_cfg_manager\<close> raises it, and the classes after \<open>c\<close> are not tried.
\<close>

lemma choose_cfg_manager_not_caught:
  assumes "GENERIC_CFG = pre @ c # post"
    and "\<forall>c'\<in>set pre. trial_caught rt c' filename"
    and "trial_load rt c filename = Inl e" and "\<not> is_Exception e"
  shows "choose_cfg_manager rt filename log
           = (Inl e, log @ parses_of rt pre filename @ [(c, filename)])"
proof -
  have "choose_cfg_manager rt filename log
          = choose_cfg_manager_loop rt (c # post) filename (log @ parses_of rt pre filename)"
    unfolding choose_cfg_manager_def assms(1)
    by (rule choose_cfg_manager_loop_failures[OF assms(2)])
  also have "\<dots> = (Inl e, (log @ parses_of rt pre filename) @ [(c, filename)])"
    by (rule choose_cfg_manager_loop_not_caught[OF assms(3,4)])
  finally show ?thesis by simp
qed

text \<open>
  C2, as the specification states it, fails in two ways. The returned instance does not
  hold a cached mapping: on a file that \<open>PyCfg\<close> loads, the instance returned has an
  empty cache slot, and after the caller's first \<open>_cfg\<close> access the log holds two parses
  of the file by \<open>PyCfg\<close>. And the first class whose trial succeeds is not always
  selected: on \<open>exit.yml\<close> the trial of \<open>YamlCfg\<close> succeeds and those of the classes
  before it do not, but the trial of \<open>PyCfg\<close> raises \<open>SystemExit\<close>, which leaves
  \<open>choose_cfg_manager\<close> before \<open>YamlCfg\<close> is tried.
\<close>

theorem choose_cfg_manager_cache_counterexample:
  "choose_cfg_manager example_runtime ''app.rc'' []
     = (Inr \<lparr>Cfg_class = PyCfg, Cfg_filename = ''app.rc'', Cfg_config = None,
             Cfg_cache = None\<rparr>, [(PyCfg, ''app.rc'')])
   \<and> snd (snd (Cfg_cfg example_runtime
        \<lparr>Cfg_class = PyCfg, Cfg_filename = ''app.rc'', Cfg_config = None,
         Cfg_cache = None\<rparr> [(PyCfg, ''app.rc'')]))
     = [(PyCfg, ''app.rc''), (PyCfg, ''app.rc'')]
   \<and> trial_load example_runtime PyCfg ''exit.yml'' = Inl SystemExit
   \<and> trial_load example_runtime ConfigObjCfg ''exit.yml''
     = Inl (ValueError_not_available ''configobj'')
   \<and> trial_load example_runtime YamlCfg ''exit.yml'' = Inr example_yaml
   \<and> choose_cfg_manager example_runtime ''exit.yml'' []
     = (Inl SystemExit, [(PyCfg, ''exit.yml'')])"
  by (simp add: choose_cfg_manager_def GENERIC_CFG_def new_Cfg_def Cfg_cfg_def
        Cfg_cfg_body_def trial_load_def example_runtime_def)

section \<open>Properties of the path codec and the navigation primitive\<close>

lemma tokenize_from_ordinary:
  assumes "c \<noteq> separator" and "c \<noteq> escape"
  shows "tokenize_from cur (c # s) = tokenize_from (cur @ [c]) s"
  using assms by (cases s) auto

lemma tokenize_from_separator:
  "tokenize_from cur (separator # s) = cur # tokenize_from [] s"
  by (cases s) (auto simp: separator_def escape_def)

lemma tokenize_from_escaped_separator:
  "tokenize_from cur (escape # separator # s) = tokenize_from (cur @ [separator]) s"
  by simp

lemma tokenize_from_plain_then:
  assumes "plain a"
  shows "tokenize_from cur (a @ separator # s) = (cur @ a) # tokenize_from [] s"
    and "tokenize_from cur (a @ escape # separator # s) = tokenize_from (cur @ a @ [separator]) s"
    and "tokenize_from cur a = [cur @ a]"
  using assms
proof (induction a arbitrary: cur)
  case Nil
  { case 1 show ?case by (simp add: tokenize_from_separator) }
  { case 2 show ?case by simp }
  { case 3 show ?case by simp }
next
  case (Cons c a)
  { case 1
    then have "c \<noteq> separator" "c \<noteq> escape" "plain a" by (auto simp: plain_def)
    with Cons.IH(1)[of "cur @ [c]"] show ?case by (simp add: tokenize_from_ordinary) }
  { case 2
    then have "c \<noteq> separator" "c \<noteq> escape" "plain a" by (auto simp: plain_def)
    with Cons.IH(2)[of "cur @ [c]"] show ?case by (simp add: tokenize_from_ordinary) }
  { case 3
    then have "c \<noteq> separator" "c \<noteq> escape" "plain a" by (auto simp: plain_def)
    with Cons.IH(3)[of "cur @ [c]"] show ?case by (simp add: tokenize_from_ordinary) }
qed

lemma tokenize_from_separator_in_token:
  assumes "k \<in> set (tokenize_from cur s)" and "separator \<in> set k"
  shows "separator \<in> set cur \<or> has_escaped_separator s"
  using assms
proof (induction cur s rule: tokenize_from.induct)
  case (1 cur)
  then show ?case by simp
next
  case (2 cur c)
  then show ?case by (auto split: if_splits)
next
  case (3 cur c d rest)
  then show ?case
    by (cases rest) (auto split: if_splits simp: separator_def escape_def)
qed



lemma mdict_getitem_plain:
  assumes "plain a" and "map_of m a = Some v"
  shows "mdict_getitem m a = Inr v"
  using assms by (simp add: mdict_getitem_def tokenize_def tokenize_from_plain_then(3))

lemma mdict_getitem_dotted:
  assumes "plain a" and "plain b" and "map_of m a = Some (Dict sub)" and "map_of sub b = Some v"
  shows "mdict_getitem m (a @ separator # b) = Inr v"
  using assms
  by (simp add: mdict_getitem_def tokenize_def tokenize_from_plain_then(1)
        tokenize_from_plain_then(3))

lemma mdict_getitem_escaped:
  assumes "plain a" and "plain b"
  shows "mdict_getitem m (a @ escape # separator # b)
           = (case map_of m (a @ separator # b) of
                None \<Rightarrow> Inl (MissingKeyError (a @ separator # b)) | Some w \<Rightarrow> Inr w)"
  using assms
  by (simp add: mdict_getitem_def tokenize_def tokenize_from_plain_then(2)
        tokenize_from_plain_then(3))

section \<open>Properties of Config\<close>

lemma mget_append:
  "mget root loc = Inr (Dict m) \<Longrightarrow> mget root (loc @ ks) = mget m ks"
proof (induction root loc arbitrary: m rule: mget.induct)
  case (1 d)
  then show ?case by simp
next
  case (2 d k)
  then show ?case by (cases ks) (auto split: option.splits)
next
  case (3 d k k' ks')
  then show ?case by (auto split: option.splits val.splits)
qed


lemma Cfg_cfg_class:
  "Cfg_cfg rt b log = (r, b', log') \<Longrightarrow> Cfg_class b' = Cfg_class b"
  by (auto simp: Cfg_cfg_def split: option.splits sum.splits)

lemma Cfg_cfg_cached:
  "Cfg_cfg rt b log = (Inr m, b', log') \<Longrightarrow> Cfg_cache b' = Some m"
  by (auto simp: Cfg_cfg_def split: option.splits sum.splits)

lemma Config_cfg_fields:
  assumes "Config_cfg rt c log = (r, c', log')"
  shows "Config_provided_cfg c' = Config_provided_cfg c"
    and "Config_provided_at c' = Config_provided_at c"
    and "Config_prefix c' = Config_prefix c"
    and "Cfg_class (Config_cfg_manager c') = Cfg_class (Config_cfg_manager c)"
  using assms
  by (auto simp: Config_cfg_def split: option.splits if_splits prod.splits
           dest: Cfg_cfg_class)

text \<open>
  After a successful \<open>_cfg\<close>, a linked view is still linked, and the dict it was given
  is the one in the manager's cached mapping at the place \<open>Config_cfg_at\<close> tells.
\<close>

lemma Config_cfg_linked:
  assumes "linked c" and "Config_cfg rt c log = (Inr m, c1, log1)"
  shows "linked c1"
    and "case Config_cfg_at c1 of None \<Rightarrow> True | Some loc \<Rightarrow> in_manager c1 loc (Dict m)"
    and "truthy (Config_provided_cfg c1) \<longrightarrow> Config_provided_cfg c1 = Some m"
  using assms
  by (auto simp: Config_cfg_def linked_def in_manager_def Config_cfg_at_def truthy_def
           split: option.splits if_splits prod.splits dest: Cfg_cfg_cached)



text \<open>A view that the constructor returns is linked.\<close>

lemma Config_init_linked:
  "Config_init rt config prefix cfg log = (Inr c, log') \<Longrightarrow> linked c"
  by (auto simp: Config_init_def Let_def linked_def
           split: config_arg.splits prod.splits sum.splits option.splits)


text \<open>A view made by \<open>__getitem__\<close> on a linked view is linked.\<close>

lemma Config_getitem_linked:
  assumes "linked c" and "Config_getitem rt c label log = (Inr (View v), c1, log1)"
  shows "linked v"
proof -
  from assms(2) obtain m d where cfg: "Config_cfg rt c log = (Inr m, c1, log1)"
    and res: "mdict_getitem m label = Inr (Dict d)"
    and v: "View v = wrap_item c1 label (Dict d)"
    by (auto simp: Config_getitem_def wrap_item_def
             split: prod.splits sum.splits val.splits)
  from Config_cfg_linked(2)[OF assms(1) cfg] res v show ?thesis
    by (auto simp: linked_def in_manager_def wrap_item_def mdict_getitem_def mget_append
             split: option.splits)
qed




text \<open>
  The same assignment through the root view: \<open>cfg['b.bar'] = 2\<close> on the loaded
  \<open>Config(PyCfg('app.rc'))\<close> leaves the manager with the assigned mapping.
\<close>

lemma Config_setitem_read_only_root_example:
  "Config_setitem example_runtime example_loaded ''b.bar'' (Atom 2) []
     = (Inl NotImplementedError,
        example_loaded\<lparr>Config_cfg_manager :=
          (Config_cfg_manager example_loaded)\<lparr>Cfg_cache := Some example_py_assigned\<rparr>\<rparr>,
        [])"
  by (simp add: example_loaded_def example_py_def example_py_assigned_def
        Config_setitem_def Config_cfg_def Cfg_cfg_def Cfg_save_def assigned_def truthy_def
        mdict_setitem_def tokenize_def separator_def escape_def)

text \<open>
  For keys \<open>a\<close> and \<open>b\<close> free of the separator and the escape character, with a nested
  mapping at \<open>a\<close> that has the key \<open>b\<close>: the dotted access and the repeated access both
  succeed; they give the same leaf when the value is a leaf, and otherwise two views on
  the same manager with the same nested dict provided, which differ in the recorded
  prefix only. A key with a literal separator in it is read by the path in which that
  separator is escaped, and every path with such a key among its tokens has an escape
  character right before a separator.
\<close>

lemma Config_getitem_dotted_same_data:
  assumes "plain a" and "plain b"
    and "Config_cfg rt c log = (Inr m, c1, log1)"
    and "map_of m a = Some (Dict sub)" and "map_of sub b = Some v"
    and "ca = \<lparr>Config_prefix = Config_prefix c @ [a],
               Config_cfg_manager = Config_cfg_manager c1,
               Config_provided_cfg = Some sub,
               Config_provided_at = map_option (\<lambda>loc. loc @ [a]) (Config_cfg_at c1)\<rparr>"
  shows "Config_getitem rt c (a @ separator # b) log
           = (Inr (wrap_item c1 (a @ separator # b) v), c1, log1)
       \<and> Config_getitem rt c a log = (Inr (View ca), c1, log1)
       \<and> Config_getitem rt ca b log1 = (Inr (wrap_item ca b v), ca, log1)
       \<and> forget_prefix (wrap_item c1 (a @ separator # b) v) = forget_prefix (wrap_item ca b v)
       \<and> (\<forall>x. v = Atom x \<longrightarrow>
            wrap_item c1 (a @ separator # b) v = Leaf x \<and> wrap_item ca b v = Leaf x)
       \<and> (\<forall>w. map_of m (a @ separator # b) = Some w \<longrightarrow>
            mdict_getitem m (a @ escape # separator # b) = Inr w)
       \<and> (\<forall>label k. k \<in> set (tokenize label) \<longrightarrow> separator \<in> set k
            \<longrightarrow> has_escaped_separator label)"
proof -
  from Config_cfg_fields(3)[OF assms(3)] have pre: "Config_prefix c1 = Config_prefix c" .
  have ta: "tokenize a = [a]" and tb: "tokenize b = [b]"
    and tab: "tokenize (a @ separator # b) = [a, b]"
    using assms(1,2)
    by (simp_all add: tokenize_def tokenize_from_plain_then(1) tokenize_from_plain_then(3))
  have one: "Config_getitem rt c (a @ separator # b) log
           = (Inr (wrap_item c1 (a @ separator # b) v), c1, log1)"
    using assms(3) mdict_getitem_dotted[OF assms(1,2,4,5)]
    by (simp add: Config_getitem_def)
  have two: "Config_getitem rt c a log = (Inr (View ca), c1, log1)"
    using assms(3) mdict_getitem_plain[OF assms(1,4)]
    by (simp add: Config_getitem_def wrap_item_def assms(6) pre ta)
  from assms(5) have sub: "sub \<noteq> []" by auto
  then have "Config_cfg rt ca log1 = (Inr sub, ca, log1)"
    by (simp add: Config_cfg_def assms(6))
  then have three: "Config_getitem rt ca b log1 = (Inr (wrap_item ca b v), ca, log1)"
    using mdict_getitem_plain[OF assms(2,5)] by (simp add: Config_getitem_def)
  have at: "Config_cfg_at ca = map_option (\<lambda>loc. loc @ [a]) (Config_cfg_at c1)"
    using sub by (simp add: Config_cfg_at_def truthy_def assms(6))
  have four: "forget_prefix (wrap_item c1 (a @ separator # b) v) = forget_prefix (wrap_item ca b v)"
    by (cases v; cases "Config_cfg_at c1")
       (simp_all add: forget_prefix_def wrap_item_def at tab tb, simp_all add: assms(6))
  have five: "\<forall>x. v = Atom x \<longrightarrow>
            wrap_item c1 (a @ separator # b) v = Leaf x \<and> wrap_item ca b v = Leaf x"
    by (simp add: wrap_item_def)
  have six: "\<forall>w. map_of m (a @ separator # b) = Some w \<longrightarrow>
            mdict_getitem m (a @ escape # separator # b) = Inr w"
    by (simp add: mdict_getitem_escaped[OF assms(1,2)])
  have seven: "\<forall>label k. k \<in> set (tokenize label) \<longrightarrow> separator \<in> set k
            \<longrightarrow> has_escaped_separator label"
    using tokenize_from_separator_in_token[of _ "[]"] by (auto simp: tokenize_def)
  from one two three four five six seven show ?thesis by blast
qed

text \<open>
  C9, at an input where the code leaves it. \<open>__getitem__\<close> appends the label as it was
  given to the prefix, without tokenizing it. With a mapping at \<open>b.bar\<close>, \<open>cfg['b.bar']\<close>
  is a view with the prefix \<open>['b.bar']\<close>, where \<open>cfg['b']['bar']\<close> is a view with the
  prefix \<open>['b', 'bar']\<close>, the keys of the path: the two accesses reach the same dict of
  the same manager and do not yield the same view.
\<close>

theorem Config_getitem_dotted_prefix_differs:
  "Config_getitem example_runtime example_loaded ''b'' []
     = (Inr (View (example_subview [''b''] [''b'']
                     [(''foo'', Atom 3), (''bar'', Dict [(''baz'', Atom 4)])])),
        example_loaded, [])
   \<and> fst (Config_getitem example_runtime example_loaded ''b.bar'' [])
     = Inr (View (example_subview [''b.bar''] [''b'', ''bar''] [(''baz'', Atom 4)]))
   \<and> fst (Config_getitem example_runtime
       (example_subview [''b''] [''b'']
          [(''foo'', Atom 3), (''bar'', Dict [(''baz'', Atom 4)])])
       ''bar'' [])
     = Inr (View (example_subview [''b'', ''bar''] [''b'', ''bar''] [(''baz'', Atom 4)]))
   \<and> tokenize ''b.bar'' = [''b'', ''bar'']
   \<and> example_subview [''b.bar''] [''b'', ''bar''] [(''baz'', Atom 4)]
     \<noteq> example_subview [''b'', ''bar''] [''b'', ''bar''] [(''baz'', Atom 4)]"
  by (simp add: Config_getitem_def Config_cfg_def Config_cfg_at_def truthy_def Cfg_cfg_def
        mdict_getitem_def tokenize_def separator_def escape_def wrap_item_def
        example_loaded_def example_py_def example_subview_def)

text \<open>
  C10. A view obtained by descending into a nested mapping reads the provided dict
  only when that dict is not empty. When it is empty, \<open>_cfg\<close> is the manager's \<open>_cfg\<close>, the
  root mapping: item access, iteration and containment on the view all go to the root,
  so the view shows the root's keys.
\<close>

theorem Config_empty_subview_reads_root:
  assumes "Config_cfg rt c log = (Inr m, c1, log1)"
    and "mdict_getitem m label = Inr (Dict sub)"
    and "v = \<lparr>Config_prefix = Config_prefix c @ [label],
              Config_cfg_manager = Config_cfg_manager c1,
              Config_provided_cfg = Some sub,
              Config_provided_at =
                map_option (\<lambda>loc. loc @ tokenize label) (Config_cfg_at c1)\<rparr>"
    and "Cfg_cfg rt (Config_cfg_manager c1) log1 = (Inr root, b, log2)"
    and "v' = v\<lparr>Config_cfg_manager := b\<rparr>"
  shows "Config_getitem rt c label log = (Inr (View v), c1, log1)
       \<and> Config_cfg rt v log1
           = (if sub \<noteq> [] then (Inr sub, v, log1) else (Inr root, v', log2))
       \<and> Config_iter rt v log1
           = (if sub \<noteq> [] then (Inr (map fst sub), v, log1)
              else (Inr (map fst root), v', log2))
       \<and> Config_contains rt v key log1
           = (if sub \<noteq> [] then (Inr (key \<in> set (map fst sub)), v, log1)
              else (Inr (key \<in> set (map fst root)), v', log2))
       \<and> Config_getitem rt v path log1
           = (if sub \<noteq> [] then (map_sum id (wrap_item v path) (mdict_getitem sub path), v, log1)
              else (map_sum id (wrap_item v' path) (mdict_getitem root path), v', log2))"
proof -
  from Config_cfg_fields(3)[OF assms(1)] have pre: "Config_prefix c1 = Config_prefix c" .
  have get: "Config_getitem rt c label log = (Inr (View v), c1, log1)"
    using assms(1,2) by (simp add: Config_getitem_def wrap_item_def assms(3) pre)
  have cfg: "Config_cfg rt v log1
           = (if sub \<noteq> [] then (Inr sub, v, log1) else (Inr root, v', log2))"
    using assms(4) by (simp add: Config_cfg_def assms(3,5))
  have iter: "Config_iter rt v log1
           = (if sub \<noteq> [] then (Inr (map fst sub), v, log1)
              else (Inr (map fst root), v', log2))"
    by (simp add: Config_iter_def cfg)
  have cont: "Config_contains rt v key log1
           = (if sub \<noteq> [] then (Inr (key \<in> set (map fst sub)), v, log1)
              else (Inr (key \<in> set (map fst root)), v', log2))"
    by (simp add: Config_contains_def iter)
  have item: "Config_getitem rt v path log1
           = (if sub \<noteq> [] then (map_sum id (wrap_item v path) (mdict_getitem sub path), v, log1)
              else (map_sum id (wrap_item v' path) (mdict_getitem root path), v', log2))"
    by (cases "mdict_getitem sub path"; cases "mdict_getitem root path")
       (simp_all add: Config_getitem_def cfg)
  from get cfg iter cont item show ?thesis by blast
qed

theorem Config_empty_subview_reads_root_witness:
  "Config_getitem example_runtime example_loaded ''e'' []
     = (Inr (View (example_subview [''e''] [''e''] [])), example_loaded, [])
   \<and> Config_iter example_runtime (example_subview [''e''] [''e''] []) []
     = (Inr [''x'', ''b'', ''e''], example_subview [''e''] [''e''] [], [])
   \<and> Config_contains example_runtime (example_subview [''e''] [''e''] []) ''x'' []
     = (Inr True, example_subview [''e''] [''e''] [], [])
   \<and> Config_getitem example_runtime (example_subview [''e''] [''e''] []) ''x'' []
     = (Inr (Leaf 1), example_subview [''e''] [''e''] [], [])"
  using Config_empty_subview_reads_root
    [where rt = example_runtime and c = example_loaded and log = "[]" and m = example_py
       and ?c1.0 = example_loaded and ?log1.0 = "[]" and label = "''e''" and sub = "[]"
       and v = "example_subview [''e''] [''e''] []" and root = example_py
       and b = "Config_cfg_manager example_loaded" and ?log2.0 = "[]"
       and v' = "example_subview [''e''] [''e''] []" and key = "''x''" and path = "''x''"]
  by (simp add: example_loaded_def example_py_def example_subview_def Config_cfg_def
        Config_cfg_at_def truthy_def Cfg_cfg_def mdict_getitem_def tokenize_def
        separator_def escape_def wrap_item_def)

section \<open>Properties of \<open>load\<close>\<close>

text \<open>
  C4, at the inputs where the code leaves the documented policy. With a \<open>local_path\<close>
  given, no override file and no environment variable, the search reaches the supplier
  that refers to the unbound name \<open>b\<close>: \<open>load\<close> raises \<open>NameError\<close>, whatever the
  default and whatever files exist.
\<close>

theorem load_local_path_NameError:
  assumes "config_file = None \<or> config_file = Some []"
    and "os_environ_get os (upper basename @ ''_CONFIG_FILENAME'') = None
         \<or> os_environ_get os (upper basename @ ''_CONFIG_FILENAME'') = Some []"
    and "local_path = Some lp" and "lp \<noteq> []"
  shows "load os config_factory (Some basename) default_arg config_file local_path None st
           = (Inl (NameError ''b''), st)"
  using assms
  by (auto simp: load_def default_config_struct_def find_files_def)

theorem load_local_path_NameError_witness:
  "load example_os (Config_factory example_runtime) (Some ''app'') (Some (0::nat)) None
     (Some ''.'') None []
   = (Inl (NameError ''b''), [])"
  using load_local_path_NameError
    [where config_file = None and os = example_os and basename = "''app''"
       and local_path = "Some ''.''" and lp = "''.''"
       and config_factory = "Config_factory example_runtime" and default_arg = "Some (0::nat)"
       and st = "[]"]
  by (simp add: example_os_def)

text \<open>
  Without \<open>local_path\<close>, the home-directory rule is evaluated twice: the one file
  \<open>/home/u/.app.rc\<close> comes back twice from the search, and is loaded twice.
\<close>

lemma load_home_file_twice:
  "load example_os (Config_factory example_runtime) None (Some (0::nat)) None None None []
   = (Inr (Loaded (MultiDictReader [example_home_Config, example_home_Config])),
      [(PyCfg, ''/home/u/.app.rc''), (PyCfg, ''/home/u/.app.rc'')])"
  by (simp add: load_def default_config_struct_def find_files_def example_os_def on_disk_def
        os_path_basename_def endswith_def load_files_def Config_factory_def Config_init_def
        choose_cfg_manager_def GENERIC_CFG_def new_Cfg_def Cfg_cfg_def Cfg_cfg_body_def
        example_runtime_def example_home_Config_def upper_def)

end
